theory Spec2Isabelle
  imports Main "HOL-Library.AList"
begin

section \<open>Values and library functions\<close>

text \<open>
  The payloads that the timeline stores (\<open>data\<close>, \<open>characters\<close>, asset metadata) and the
  document that \<open>save_timeline\<close> writes are JSON values. A Python \<open>dict\<close> is an
  association list in insertion order (\<open>.items()\<close> enumerates it front to back); numbers
  are Python ints.
\<close>

datatype json =
    JNull
  | JBool bool
  | JInt int
  | JStr string
  | JArr "json list"
  | JObj "(string \<times> json) list"

text \<open>
  What the code takes from the Python library, as parameters of the model:
  \<open>fmt_datetime\<close> is the text of \<open>{timestamp}\<close> in an f-string,
  \<open>fmt_hash d\<close> the text of \<open>{hash(json.dumps(d))}\<close>,
  \<open>isoformat\<close> and \<open>fromisoformat\<close> the methods of \<open>datetime\<close>
  (\<open>None\<close> stands for \<open>ValueError\<close>), \<open>fmt_str\<close> is \<open>str(...)\<close> of a value.
  The type \<open>'t\<close> is \<open>datetime\<close>.
\<close>

record 't pylib =
  fmt_datetime :: "'t \<Rightarrow> string"
  fmt_hash :: "json \<Rightarrow> string"
  isoformat :: "'t \<Rightarrow> string"
  fromisoformat :: "string \<Rightarrow> 't option"
  fmt_str :: "json \<Rightarrow> string"

section \<open>StoryEvent\<close>

text \<open>An entry of \<open>branch_choices\<close>: the dict \<open>{"text": ..., "target_id": ...}\<close>.\<close>

definition BranchChoice :: "string \<Rightarrow> string \<Rightarrow> json" where
  "BranchChoice t i = JObj [(''text'', JStr t), (''target_id'', JStr i)]"

record 't StoryEvent =
  event_id :: string
  timestamp :: 't
  event_type :: string
  data :: json
  parent_event_id :: "string option"
  child_event_ids :: "string list"
  ollama_request_id :: "string option"
  emotion :: json
  is_branch_point :: bool
  branch_choices :: "json list"

text \<open>\<open>StoryEvent.__init__\<close>: the id is the f-string
  \<open>{timestamp}-{event_type}-{hash(json.dumps(data))}\<close>.\<close>

definition new_event_id :: "'t pylib \<Rightarrow> 't \<Rightarrow> string \<Rightarrow> json \<Rightarrow> string" where
  "new_event_id lib ts ty d = fmt_datetime lib ts @ ''-'' @ ty @ ''-'' @ fmt_hash lib d"

definition StoryEvent_init ::
  "'t pylib \<Rightarrow> 't \<Rightarrow> string \<Rightarrow> json \<Rightarrow> string option \<Rightarrow> string option \<Rightarrow> 't StoryEvent" where
  "StoryEvent_init lib ts ty d parent req =
     \<lparr> event_id = new_event_id lib ts ty d,
       timestamp = ts,
       event_type = ty,
       data = d,
       parent_event_id = parent,
       child_event_ids = [],
       ollama_request_id = req,
       emotion = JNull,
       is_branch_point = False,
       branch_choices = [] \<rparr>"

section \<open>StoryTimeline\<close>

text \<open>
  \<open>events\<close> is the dict of events by id, in insertion order; \<open>assets\<close> is the dict of
  category buckets, each a dict from asset id to metadata.
\<close>

record 't StoryTimeline =
  events :: "(string \<times> 't StoryEvent) list"
  head_event_id :: "string option"
  characters :: json
  active_branch_id :: "string option"
  assets :: "(string \<times> (string \<times> json) list) list"
  dirty :: bool

definition StoryTimeline_init :: "'t StoryTimeline" where
  "StoryTimeline_init =
     \<lparr> events = [],
       head_event_id = None,
       characters = JObj [],
       active_branch_id = None,
       assets = [(''backgrounds'', []), (''characters'', []), (''sounds'', []), (''music'', [])],
       dirty = False \<rparr>"

text \<open>\<open>k in d\<close> for a dict \<open>d\<close>.\<close>

definition has_key :: "('k \<times> 'v) list \<Rightarrow> 'k \<Rightarrow> bool" where
  "has_key d k = (map_of d k \<noteq> None)"

text \<open>A mutation of the object stored under key \<open>k\<close>; the callers have checked that
  the key is there.\<close>

definition modify_event ::
  "string \<Rightarrow> ('t StoryEvent \<Rightarrow> 't StoryEvent) \<Rightarrow> (string \<times> 't StoryEvent) list
     \<Rightarrow> (string \<times> 't StoryEvent) list" where
  "modify_event k f evs =
     (case map_of evs k of None \<Rightarrow> evs | Some e \<Rightarrow> AList.update k (f e) evs)"

text \<open>
  \<open>add_event\<close>. \<open>now\<close> is the value that \<open>datetime.now()\<close> returns in this call. The
  argument \<open>parent_arg\<close> is \<open>None\<close> when the caller omits it. The test
  \<open>parent_event_id and parent_event_id in self.events\<close> is false for \<open>None\<close> and for the
  empty string, and it is made after the new event has been stored.
\<close>

definition add_event ::
  "'t pylib \<Rightarrow> 't \<Rightarrow> 't StoryTimeline \<Rightarrow> string \<Rightarrow> json \<Rightarrow> string option \<Rightarrow> string option
     \<Rightarrow> string \<times> 't StoryTimeline" where
  "add_event lib now self ty d parent_arg req =
     (let parent = (case parent_arg of None \<Rightarrow> head_event_id self | Some p \<Rightarrow> Some p);
          new_event = StoryEvent_init lib now ty d parent req;
          new_id = event_id new_event;
          evs1 = AList.update new_id new_event (events self);
          evs2 = (case parent of
                    None \<Rightarrow> evs1
                  | Some p \<Rightarrow>
                      if p \<noteq> [] \<and> has_key evs1 p
                      then modify_event p
                             (\<lambda>e. e\<lparr>child_event_ids := child_event_ids e @ [new_id]\<rparr>) evs1
                      else evs1)
      in (new_id, self\<lparr>events := evs2, head_event_id := Some new_id, dirty := True\<rparr>))"

text \<open>
  \<open>create_branch_point\<close>. An element of \<open>branch_choices\<close> is the dict
  \<open>{"text": ..., "data": ...}\<close> that the caller built (\<open>data\<close> may be absent), paired
  with the value that \<open>datetime.now()\<close> returns in the \<open>add_event\<close> call of its iteration.
\<close>

datatype ChoiceSpec = ChoiceSpec (spec_text: string) (spec_data: "json option")

definition branch_payload :: "ChoiceSpec \<Rightarrow> json" where
  "branch_payload c =
     JObj [(''text'', JStr (spec_text c)),
           (''content'', (case spec_data c of None \<Rightarrow> JObj [] | Some d \<Rightarrow> d))]"

text \<open>The inner loop \<open>for child_id in existing_children\<close>, with \<open>bid\<close> the id of the
  branch event.\<close>

fun reattach ::
  "string \<Rightarrow> string list \<Rightarrow> (string \<times> 't StoryEvent) list \<Rightarrow> (string \<times> 't StoryEvent) list" where
  "reattach bid [] evs = evs"
| "reattach bid (child_id # rest) evs =
     reattach bid rest
       (case map_of evs child_id of
          None \<Rightarrow> evs
        | Some child \<Rightarrow>
            modify_event bid (\<lambda>b. b\<lparr>child_event_ids := child_event_ids b @ [child_id]\<rparr>)
              (modify_event child_id (\<lambda>c. c\<lparr>parent_event_id := Some bid\<rparr>) evs))"

text \<open>
  The loop \<open>for choice in branch_choices\<close>. The local variable \<open>event\<close> is the object that
  was stored under \<open>event_id\<close> when the function was entered; \<open>live\<close> records that it is
  still the object stored there (an \<open>add_event\<close> that generates the id \<open>event_id\<close> again
  replaces it in the dict, and the later appends to \<open>event.branch_choices\<close> are then made
  on an object that the timeline no longer holds).
\<close>

fun branch_loop ::
  "'t pylib \<Rightarrow> string \<Rightarrow> string list \<Rightarrow> ('t \<times> ChoiceSpec) list \<Rightarrow> bool \<Rightarrow> string list
     \<Rightarrow> 't StoryTimeline \<Rightarrow> string list \<times> 't StoryTimeline" where
  "branch_loop lib eid existing_children [] live created self = (created, self)"
| "branch_loop lib eid existing_children ((now, choice) # rest) live created self =
     (let (bid, self1) =
            add_event lib now self ''branch_option'' (branch_payload choice) (Some eid) None;
          live1 = (live \<and> bid \<noteq> eid);
          evs2 = (if existing_children \<noteq> [] \<and> created = []
                  then reattach bid existing_children (events self1) else events self1);
          evs3 = (if live1
                  then modify_event eid
                         (\<lambda>e. e\<lparr>branch_choices :=
                                  branch_choices e @ [BranchChoice (spec_text choice) bid]\<rparr>) evs2
                  else evs2)
      in branch_loop lib eid existing_children rest live1 (created @ [bid])
           (self1\<lparr>events := evs3\<rparr>))"

definition create_branch_point ::
  "'t pylib \<Rightarrow> 't StoryTimeline \<Rightarrow> string \<Rightarrow> ('t \<times> ChoiceSpec) list
     \<Rightarrow> (bool \<times> string list) \<times> 't StoryTimeline" where
  "create_branch_point lib self eid choices =
     (case map_of (events self) eid of
        None \<Rightarrow> ((False, []), self)
      | Some event \<Rightarrow>
          (let existing_children = child_event_ids event;
               evs0 = modify_event eid
                        (\<lambda>e. e\<lparr>is_branch_point := True, child_event_ids := [],
                                branch_choices := []\<rparr>) (events self);
               (created, self1) =
                  branch_loop lib eid existing_children choices True [] (self\<lparr>events := evs0\<rparr>)
           in ((True, created), self1\<lparr>dirty := True\<rparr>)))"


text \<open>
  \<open>undo_ollama_generation\<close>. \<open>events_to_remove\<close> is the list comprehension over
  \<open>self.events.items()\<close>; \<open>undo_step\<close> is one iteration of the loop over it
  (\<open>list.remove\<close> deletes the first occurrence, and the \<open>ValueError\<close> of a missing one is
  caught and ignored).
\<close>

definition events_to_remove ::
  "(string \<times> 't StoryEvent) list \<Rightarrow> string option \<Rightarrow> string list" where
  "events_to_remove evs req = map fst (filter (\<lambda>(k, e). ollama_request_id e = req) evs)"

definition undo_step ::
  "string \<Rightarrow> (string \<times> 't StoryEvent) list \<times> string option
     \<Rightarrow> (string \<times> 't StoryEvent) list \<times> string option" where
  "undo_step k st =
     (let evs = fst st; head = snd st;
          event = map_of evs k;
          evs1 = AList.delete k evs;
          evs2 = (case event of
                    None \<Rightarrow> evs1
                  | Some e \<Rightarrow>
                      (case parent_event_id e of
                         None \<Rightarrow> evs1
                       | Some p \<Rightarrow>
                           if p \<noteq> []
                           then modify_event p
                                  (\<lambda>pe. pe\<lparr>child_event_ids := remove1 k (child_event_ids pe)\<rparr>)
                                  evs1
                           else evs1));
          head1 = (if head = Some k
                   then (case event of None \<Rightarrow> None | Some e \<Rightarrow> parent_event_id e)
                   else head)
      in (evs2, head1))"

definition undo_ollama_generation ::
  "'t StoryTimeline \<Rightarrow> string option \<Rightarrow> bool \<times> 't StoryTimeline" where
  "undo_ollama_generation self req =
     (let to_remove = events_to_remove (events self) req
      in if to_remove = [] then (False, self)
         else (let st = fold undo_step to_remove (events self, head_event_id self)
               in (True, self\<lparr>events := fst st, head_event_id := snd st, dirty := True\<rparr>)))"

section \<open>Asset registry\<close>

definition add_asset ::
  "'t pylib \<Rightarrow> 't StoryTimeline \<Rightarrow> string \<Rightarrow> string \<Rightarrow> json \<Rightarrow> bool \<times> 't StoryTimeline" where
  "add_asset lib self category asset_id asset_data =
     (case map_of (assets self) category of
        None \<Rightarrow> (False, self)
      | Some bucket \<Rightarrow>
          (let asset_data1 = (case asset_data of
                                JObj kv \<Rightarrow> asset_data
                              | _ \<Rightarrow> JObj [(''path'', JStr (fmt_str lib asset_data))])
           in (True, self\<lparr>assets := AList.update category
                                        (AList.update asset_id asset_data1 bucket) (assets self),
                           dirty := True\<rparr>)))"


section \<open>Persistence\<close>

definition enc_opt :: "string option \<Rightarrow> json" where
  "enc_opt x = (case x of None \<Rightarrow> JNull | Some s \<Rightarrow> JStr s)"

definition to_dict :: "'t pylib \<Rightarrow> 't StoryEvent \<Rightarrow> json" where
  "to_dict lib e =
     JObj [(''event_id'', JStr (event_id e)),
           (''timestamp'', JStr (isoformat lib (timestamp e))),
           (''event_type'', JStr (event_type e)),
           (''data'', data e),
           (''parent_event_id'', enc_opt (parent_event_id e)),
           (''child_event_ids'', JArr (map JStr (child_event_ids e))),
           (''ollama_request_id'', enc_opt (ollama_request_id e)),
           (''emotion'', emotion e),
           (''is_branch_point'', JBool (is_branch_point e)),
           (''branch_choices'', JArr (branch_choices e))]"

text \<open>
  What can go wrong while loading. The first five are raised by \<open>open\<close> and \<open>json.load\<close>
  (\<open>IOError\<close> is every \<open>OSError\<close> other than \<open>FileNotFoundError\<close>;
  \<open>UnicodeDecodeError\<close>, for bytes that are not UTF-8, is a \<open>ValueError\<close> that is not a
  \<open>JSONDecodeError\<close>; \<open>RecursionError\<close> is raised on a text nested too deeply), the next
  four by the code that reads the parsed document. \<open>Untyped\<close> is not a Python exception:
  Python stores whatever value a field of the document holds, and the records above have
  typed fields, so a document with a field of another type than \<open>to_dict\<close> and
  \<open>save_timeline\<close> write is outside this model.
\<close>

datatype failure =
    FileNotFoundError | IOError | JSONDecodeError | UnicodeDecodeError | RecursionError
  | KeyError | TypeError | ValueError | AttributeError
  | Untyped

definition dec_str :: "json \<Rightarrow> string option" where
  "dec_str j = (case j of JStr s \<Rightarrow> Some s | _ \<Rightarrow> None)"

text \<open>\<open>d.get(k)\<close> read as an optional string.\<close>

definition dec_opt :: "json option \<Rightarrow> string option option" where
  "dec_opt x = (case x of None \<Rightarrow> Some None | Some JNull \<Rightarrow> Some None
                | Some (JStr s) \<Rightarrow> Some (Some s) | Some _ \<Rightarrow> None)"

text \<open>\<open>d.get(k, [])\<close> read as a list of strings, \<open>d.get(k, False)\<close> as a bool.\<close>

definition dec_str_list :: "json option \<Rightarrow> string list option" where
  "dec_str_list x = (case x of None \<Rightarrow> Some [] | Some (JArr xs) \<Rightarrow> those (map dec_str xs)
                     | Some _ \<Rightarrow> None)"

definition dec_bool :: "json option \<Rightarrow> bool option" where
  "dec_bool x = (case x of None \<Rightarrow> Some False | Some (JBool b) \<Rightarrow> Some b | Some _ \<Rightarrow> None)"

text \<open>\<open>d.get(k, [])\<close> read as a list, its elements kept as they are.\<close>

definition dec_choices :: "json option \<Rightarrow> json list option" where
  "dec_choices x = (case x of None \<Rightarrow> Some [] | Some (JArr xs) \<Rightarrow> Some xs | Some _ \<Rightarrow> None)"

text \<open>
  \<open>StoryEvent.from_dict\<close>. The subscripts \<open>data['timestamp']\<close>, \<open>data['event_type']\<close>,
  \<open>data['data']\<close> and \<open>data['event_id']\<close> are evaluated in this order and raise
  \<open>KeyError\<close>; the other fields are read with \<open>.get\<close>.
\<close>

definition from_dict :: "'t pylib \<Rightarrow> json \<Rightarrow> failure + 't StoryEvent" where
  "from_dict lib d =
     (case d of
        JObj kv \<Rightarrow>
          (case map_of kv ''timestamp'' of
             None \<Rightarrow> Inl KeyError
           | Some (JStr s) \<Rightarrow>
               (case fromisoformat lib s of
                  None \<Rightarrow> Inl ValueError
                | Some ts \<Rightarrow>
                    (case map_of kv ''event_type'' of
                       None \<Rightarrow> Inl KeyError
                     | Some ty \<Rightarrow>
                         (case map_of kv ''data'' of
                            None \<Rightarrow> Inl KeyError
                          | Some dat \<Rightarrow>
                              (case map_of kv ''event_id'' of
                                 None \<Rightarrow> Inl KeyError
                               | Some i \<Rightarrow>
                                   (case (dec_str i, dec_str ty,
                                          dec_opt (map_of kv ''parent_event_id''),
                                          dec_str_list (map_of kv ''child_event_ids''),
                                          dec_opt (map_of kv ''ollama_request_id''),
                                          dec_bool (map_of kv ''is_branch_point''),
                                          dec_choices (map_of kv ''branch_choices'')) of
                                      (Some i1, Some ty1, Some par, Some chs, Some req,
                                       Some bp, Some bcs) \<Rightarrow>
                                        Inr ((StoryEvent_init lib ts ty1 dat par req)
                                               \<lparr> event_id := i1,
                                                 child_event_ids := chs,
                                                 emotion := (case map_of kv ''emotion'' of
                                                               None \<Rightarrow> JNull | Some em \<Rightarrow> em),
                                                 is_branch_point := bp,
                                                 branch_choices := bcs \<rparr>)
                                    | _ \<Rightarrow> Inl Untyped)))))
           | Some _ \<Rightarrow> Inl TypeError)
      | _ \<Rightarrow> Inl TypeError)"

text \<open>The document that \<open>save_timeline\<close> hands to \<open>json.dump\<close>.\<close>

definition data_to_save :: "'t pylib \<Rightarrow> 't StoryTimeline \<Rightarrow> json" where
  "data_to_save lib self =
     JObj [(''events'', JObj (map (\<lambda>(k, e). (k, to_dict lib e)) (events self))),
           (''head_event_id'', enc_opt (head_event_id self)),
           (''active_branch_id'', enc_opt (active_branch_id self)),
           (''characters'', characters self),
           (''assets'', JObj (map (\<lambda>(c, b). (c, JObj b)) (assets self)))]"

text \<open>\<open>save_timeline\<close>: \<open>written\<close> says that writing the file raised no \<open>IOError\<close>; the
  result is the document in the file, if any, and the timeline.\<close>

definition save_timeline ::
  "'t pylib \<Rightarrow> 't StoryTimeline \<Rightarrow> bool \<Rightarrow> json option \<times> 't StoryTimeline" where
  "save_timeline lib self written =
     (if written then (Some (data_to_save lib self), self\<lparr>dirty := False\<rparr>) else (None, self))"

text \<open>What \<open>open(filepath)\<close> and \<open>json.load(f)\<close> give \<open>load_timeline\<close>: an exception, or
  the parsed document.\<close>

datatype source = Raised failure | Parsed json

text \<open>The dict comprehension over \<open>data_loaded.get("events", {}).items()\<close>.\<close>

fun load_events :: "'t pylib \<Rightarrow> (string \<times> json) list \<Rightarrow> failure + (string \<times> 't StoryEvent) list" where
  "load_events lib [] = Inr []"
| "load_events lib ((k, edata) # rest) =
     (case from_dict lib edata of
        Inl err \<Rightarrow> Inl err
      | Inr e \<Rightarrow> (case load_events lib rest of Inl err \<Rightarrow> Inl err | Inr es \<Rightarrow> Inr ((k, e) # es)))"

definition dec_bucket :: "string \<times> json \<Rightarrow> (string \<times> (string \<times> json) list) option" where
  "dec_bucket cb = (case snd cb of JObj b \<Rightarrow> Some (fst cb, b) | _ \<Rightarrow> None)"

text \<open>\<open>data_loaded.get("assets", {})\<close> read as a dict of dicts.\<close>

definition dec_assets :: "json option \<Rightarrow> (string \<times> (string \<times> json) list) list option" where
  "dec_assets x = (case x of None \<Rightarrow> Some [] | Some (JObj cs) \<Rightarrow> those (map dec_bucket cs)
                   | Some _ \<Rightarrow> None)"

text \<open>
  \<open>load_timeline\<close>. The handlers catch \<open>FileNotFoundError\<close>, \<open>IOError\<close> and
  \<open>JSONDecodeError\<close> and call \<open>__init__\<close>; every other exception leaves the function
  (\<open>Inl\<close>). Of the statements in the \<open>try\<close> block only the first, which builds the
  events, can raise, so a raise leaves the timeline as it was.
\<close>

definition load_timeline :: "'t pylib \<Rightarrow> 't StoryTimeline \<Rightarrow> source \<Rightarrow> failure + 't StoryTimeline" where
  "load_timeline lib self src =
     (case src of
        Raised FileNotFoundError \<Rightarrow> Inr StoryTimeline_init
      | Raised IOError \<Rightarrow> Inr StoryTimeline_init
      | Raised JSONDecodeError \<Rightarrow> Inr StoryTimeline_init
      | Raised err \<Rightarrow> Inl err
      | Parsed (JObj doc) \<Rightarrow>
          (case (case map_of doc ''events'' of
                   None \<Rightarrow> Inr []
                 | Some (JObj items) \<Rightarrow> load_events lib items
                 | Some _ \<Rightarrow> Inl AttributeError) of
             Inl err \<Rightarrow> Inl err
           | Inr evs \<Rightarrow>
               (case (dec_opt (map_of doc ''head_event_id''),
                      dec_opt (map_of doc ''active_branch_id''),
                      dec_assets (map_of doc ''assets'')) of
                  (Some h, Some a, Some ast) \<Rightarrow>
                     Inr (self\<lparr> events := evs,
                                head_event_id := h,
                                active_branch_id := a,
                                characters := (case map_of doc ''characters'' of
                                                 None \<Rightarrow> JObj [] | Some c \<Rightarrow> c),
                                assets := ast,
                                dirty := False \<rparr>)
                | _ \<Rightarrow> Inl Untyped))
      | Parsed _ \<Rightarrow> Inl AttributeError)"

section \<open>Parent and child links\<close>

text \<open>Every event with a parent id \<open>p\<close> has \<open>p\<close> among the keys of \<open>events\<close>, and the
  child list of \<open>p\<close> holds the id of the event.\<close>

definition linked :: "(string \<times> 't StoryEvent) list \<Rightarrow> 't StoryEvent \<Rightarrow> bool" where
  "linked evs e =
     (case parent_event_id e of
        None \<Rightarrow> True
      | Some p \<Rightarrow> (case map_of evs p of
                    None \<Rightarrow> False
                  | Some pe \<Rightarrow> event_id e \<in> set (child_event_ids pe)))"

definition bidirectional :: "'t StoryTimeline \<Rightarrow> bool" where
  "bidirectional self = list_all (\<lambda>ke. linked (events self) (snd ke)) (events self)"








section \<open>Concrete runs\<close>

text \<open>A library instance for the concrete runs below: a timestamp is its own text and
  every payload hashes to 0.\<close>

definition test_lib :: "string pylib" where
  "test_lib = \<lparr> fmt_datetime = (\<lambda>t. t), fmt_hash = (\<lambda>d. ''0''), isoformat = (\<lambda>t. t),
                fromisoformat = Some, fmt_str = (\<lambda>d. '''') \<rparr>"

text \<open>A root event, then two generated events with the request id \<open>g\<close>, each the child
  of the one before and the last one the head.\<close>

definition run1 :: "string StoryTimeline" where
  "run1 = snd (add_event test_lib ''1'' StoryTimeline_init ''text_node'' (JStr ''a'') None None)"

definition run2 :: "string StoryTimeline" where
  "run2 = snd (add_event test_lib ''2'' run1 ''ollama_generation'' (JStr ''b'') None (Some ''g''))"

definition run3 :: "string StoryTimeline" where
  "run3 = snd (add_event test_lib ''3'' run2 ''ollama_generation'' (JStr ''c'') None (Some ''g''))"

text \<open>A root event, a generated event under it, and a text event under the generated
  one.\<close>

definition run4 :: "string StoryTimeline" where
  "run4 = snd (add_event test_lib ''4'' run2 ''text_node'' (JStr ''d'') None None)"

text \<open>A root event with two children.\<close>

definition run5 :: "string StoryTimeline" where
  "run5 = snd (add_event test_lib ''3'' run2 ''text_node'' (JStr ''c'')
                 (Some ''1-text_node-0'') None)"


lemmas run_defs =
  run1_def run2_def run3_def run4_def run5_def test_lib_def StoryTimeline_init_def add_event_def
  StoryEvent_init_def new_event_id_def modify_event_def has_key_def Let_def

section \<open>Facts about the dict operations\<close>

lemma map_of_modify_event:
  "map_of (modify_event k f evs) =
     (case map_of evs k of None \<Rightarrow> map_of evs | Some e \<Rightarrow> (map_of evs)(k \<mapsto> f e))"
  by (simp add: modify_event_def update_conv' split: option.split)

lemma event_id_init [simp]:
  "event_id (StoryEvent_init lib ts ty d parent req) = new_event_id lib ts ty d"
  by (simp add: StoryEvent_init_def)

lemma add_event_fst: "fst (add_event lib now self ty d parent_arg req) = new_event_id lib now ty d"
  by (simp add: add_event_def Let_def)

lemma keys_modify_event: "map fst (modify_event k f evs) = map fst evs"
proof (cases "map_of evs k")
  case None
  then show ?thesis by (simp add: modify_event_def)
next
  case (Some e)
  then have "k \<in> fst ` set evs" by (metis map_of_eq_None_iff option.distinct(1))
  with Some show ?thesis by (simp add: modify_event_def update_keys)
qed

lemma keys_add_event:
  "map fst (events (snd (add_event lib now self ty d p r)))
     = (if new_event_id lib now ty d \<in> fst ` set (events self) then map fst (events self)
        else map fst (events self) @ [new_event_id lib now ty d])"
  by (simp add: add_event_def Let_def keys_modify_event update_keys split: option.split)

section \<open>add_event\<close>

text \<open>
  C9. After every call of \<open>add_event\<close>, whatever the parent argument (the head, another
  event, an id that is not in \<open>events\<close>, or omitted), \<open>head_event_id\<close> is the id that the
  call returned.
\<close>

theorem add_event_head_is_new_id:
  "head_event_id (snd (add_event lib now self ty d parent_arg req))
     = Some (fst (add_event lib now self ty d parent_arg req))"
  by (simp add: add_event_def Let_def)



text \<open>
  C3. The id is a function of the clock reading, the kind and the payload only: a second
  \<open>add_event\<close> with the same three returns the id that the first one returned, and it
  replaces the first event in \<open>events\<close> instead of adding one.
\<close>

theorem add_event_repeats_id:
  "fst (add_event lib now (snd (add_event lib now self ty d p1 r1)) ty d p2 r2)
     = fst (add_event lib now self ty d p1 r1) \<and>
   map fst (events (snd (add_event lib now (snd (add_event lib now self ty d p1 r1)) ty d p2 r2)))
     = map fst (events (snd (add_event lib now self ty d p1 r1)))"
proof -
  have "set (map fst (events (snd (add_event lib now self ty d p1 r1))))
          = insert (new_event_id lib now ty d) (fst ` set (events self))"
    by (auto simp: keys_add_event)
  then have "new_event_id lib now ty d
               \<in> fst ` set (events (snd (add_event lib now self ty d p1 r1)))"
    by auto
  then show ?thesis by (simp add: add_event_fst keys_add_event)
qed

section \<open>Loading\<close>

text \<open>
  C7, as stated, fails: \<open>load_timeline\<close> has handlers for three classes of exception
  only. A file whose bytes are not UTF-8 makes \<open>json.load\<close> raise
  \<open>UnicodeDecodeError\<close>, the file \<open>[]\<close> parses to a list, which has no \<open>get\<close>, and in
  the file \<open>{"events": {"e": {}}}\<close> the event has no \<open>timestamp\<close>; each of the three
  exceptions leaves \<open>load_timeline\<close>.
\<close>

theorem load_propagates_other_failures:
  "load_timeline test_lib run1 (Raised UnicodeDecodeError) = Inl UnicodeDecodeError \<and>
   load_timeline test_lib run1 (Parsed (JArr [])) = Inl AttributeError \<and>
   load_timeline test_lib run1 (Parsed (JObj [(''events'', JObj [(''e'', JObj [])])]))
     = Inl KeyError"
  by (simp add: load_timeline_def from_dict_def)

text \<open>
  C7, amended. When the file is missing (\<open>FileNotFoundError\<close>), cannot be read
  (\<open>IOError\<close>) or its text is rejected by the JSON parser (\<open>JSONDecodeError\<close>),
  \<open>load_timeline\<close> returns, and the timeline is the fresh one: no events, no head, no
  active branch, no characters, the four empty asset buckets, not dirty.
\<close>

theorem load_failure_resets:
  assumes "src = Raised FileNotFoundError \<or> src = Raised IOError \<or> src = Raised JSONDecodeError"
  shows "load_timeline lib self src = Inr StoryTimeline_init \<and>
         (StoryTimeline_init :: 't StoryTimeline) =
           \<lparr> events = [], head_event_id = None, characters = JObj [], active_branch_id = None,
             assets = [(''backgrounds'', []), (''characters'', []), (''sounds'', []),
                       (''music'', [])],
             dirty = False \<rparr>"
  using assms by (auto simp: load_timeline_def StoryTimeline_init_def)

theorem load_failure_resets_witness:
  "load_timeline test_lib run1 (Raised JSONDecodeError) = Inr StoryTimeline_init"
  using load_failure_resets [of "Raised JSONDecodeError" test_lib run1] by blast

lemma add_asset_no_bucket: "assets self = [] \<Longrightarrow> add_asset lib self c a m = (False, self)"
  by (simp add: add_asset_def)

lemma add_assets_no_bucket:
  "assets self = [] \<Longrightarrow> fold (\<lambda>cam s. snd (add_asset lib s (fst cam) (fst (snd cam)) (snd (snd cam))))
                              calls self = self"
  by (induction calls) (simp_all add: add_asset_no_bucket)

lemma load_assets_default:
  "load_timeline lib self (Parsed (JObj doc)) = Inr self' \<Longrightarrow> map_of doc ''assets'' = None
     \<Longrightarrow> assets self' = []"
  by (auto simp: load_timeline_def dec_assets_def split: option.splits sum.splits json.splits)

text \<open>
  C10. When \<open>load_timeline\<close> succeeds on a document without the key \<open>assets\<close>, the
  loaded timeline has no asset bucket at all; every \<open>add_asset\<close> on it, whatever the
  category, returns false and leaves the timeline as it is, and so does every sequence of
  \<open>add_asset\<close> calls.
\<close>

theorem load_without_assets:
  assumes "load_timeline lib self (Parsed (JObj doc)) = Inr self'"
    and "map_of doc ''assets'' = None"
  shows "assets self' = [] \<and>
         (\<forall>c a m. add_asset lib self' c a m = (False, self')) \<and>
         (\<forall>calls. fold (\<lambda>cam s. snd (add_asset lib s (fst cam) (fst (snd cam)) (snd (snd cam))))
                     calls self' = self')"
  using load_assets_default [OF assms]
  by (simp add: add_asset_no_bucket add_assets_no_bucket)

theorem load_without_assets_witness:
  "load_timeline test_lib StoryTimeline_init (Parsed (JObj []))
     = Inr (StoryTimeline_init\<lparr>assets := []\<rparr>) \<and>
   map_of ([] :: (string \<times> json) list) ''assets'' = None \<and>
   add_asset test_lib (StoryTimeline_init\<lparr>assets := []\<rparr>) ''music'' ''a.mp3'' JNull
     = (False, StoryTimeline_init\<lparr>assets := []\<rparr>)"
proof -
  have l: "load_timeline test_lib StoryTimeline_init (Parsed (JObj []))
             = Inr (StoryTimeline_init\<lparr>assets := []\<rparr>)"
    by (simp add: load_timeline_def StoryTimeline_init_def dec_opt_def dec_assets_def)
  have n: "map_of ([] :: (string \<times> json) list) ''assets'' = None" by simp
  from load_without_assets [OF l n] l show ?thesis by simp
qed

section \<open>Saving and loading again\<close>

lemma dec_str_list_enc: "those (map (dec_str \<circ> JStr) xs) = Some xs"
  by (induction xs) (simp_all add: dec_str_def)

lemma dec_opt_enc: "dec_opt (Some (enc_opt x)) = Some x"
  by (cases x) (simp_all add: dec_opt_def enc_opt_def)

lemma from_dict_to_dict:
  assumes "fromisoformat lib (isoformat lib (timestamp e)) = Some (timestamp e)"
  shows "from_dict lib (to_dict lib e) = Inr e"
  using assms
  by (simp add: from_dict_def to_dict_def dec_str_def dec_opt_enc dec_str_list_def
        dec_str_list_enc dec_bool_def dec_choices_def StoryEvent_init_def)

lemma load_events_saved:
  assumes "\<forall>ke \<in> set evs. fromisoformat lib (isoformat lib (timestamp (snd ke)))
                             = Some (timestamp (snd ke))"
  shows "load_events lib (map (\<lambda>(k, e). (k, to_dict lib e)) evs) = Inr evs"
  using assms by (induction evs) (auto simp: from_dict_to_dict)

lemma dec_assets_saved: "those (map (dec_bucket \<circ> (\<lambda>(c, b). (c, JObj b))) a) = Some a"
  by (induction a) (auto simp: dec_bucket_def)

text \<open>
  C6. Provided \<open>datetime.fromisoformat\<close> inverts \<open>datetime.isoformat\<close>, loading the
  document that \<open>save_timeline\<close> writes for a timeline (the empty one included) gives a
  timeline with the same events, field by field and in the same order, the same head,
  active branch, characters and assets; only \<open>dirty\<close> is reset.
\<close>

theorem load_save_roundtrip:
  assumes "\<forall>t. fromisoformat lib (isoformat lib t) = Some t"
  shows "fst (save_timeline lib self True) = Some (data_to_save lib self) \<and>
         load_timeline lib self0 (Parsed (data_to_save lib self)) = Inr (self\<lparr>dirty := False\<rparr>)"
  using assms
  by (simp add: save_timeline_def load_timeline_def data_to_save_def load_events_saved
        dec_opt_enc dec_assets_def dec_assets_saved)

theorem load_save_roundtrip_witness:
  "(\<forall>t. fromisoformat test_lib (isoformat test_lib t) = Some t) \<and>
   load_timeline test_lib StoryTimeline_init (Parsed (data_to_save test_lib run3))
     = Inr (run3\<lparr>dirty := False\<rparr>) \<and>
   load_timeline test_lib run3 (Parsed (data_to_save test_lib StoryTimeline_init))
     = Inr StoryTimeline_init"
proof -
  have inv: "\<forall>t. fromisoformat test_lib (isoformat test_lib t) = Some t"
    by (simp add: test_lib_def)
  have "(StoryTimeline_init :: string StoryTimeline)\<lparr>dirty := False\<rparr> = StoryTimeline_init"
    by (simp add: StoryTimeline_init_def)
  with load_save_roundtrip [OF inv, of run3 StoryTimeline_init]
       load_save_roundtrip [OF inv, of StoryTimeline_init run3] inv
  show ?thesis by simp
qed

section \<open>undo_ollama_generation\<close>

lemma has_key_iff: "has_key d k \<longleftrightarrow> k \<in> fst ` set d"
  by (simp add: has_key_def map_of_eq_None_iff)

lemma keys_undo_step: "map fst (fst (undo_step k st)) = removeAll k (map fst (fst st))"
  by (simp add: undo_step_def Let_def keys_modify_event delete_keys split: option.split)

lemma keys_undo_fold:
  "set (map fst (fst (fold undo_step ks st))) = set (map fst (fst st)) - set ks"
proof (induction ks arbitrary: st)
  case Nil
  then show ?case by simp
next
  case (Cons k ks)
  have "set (map fst (fst (fold undo_step ks (undo_step k st))))
          = set (map fst (fst (undo_step k st))) - set ks"
    by (rule Cons.IH)
  also have "\<dots> = set (map fst (fst st)) - set (k # ks)"
    by (auto simp: keys_undo_step)
  finally show ?case by simp
qed

lemma set_events_to_remove:
  "distinct (map fst evs) \<Longrightarrow>
   set (events_to_remove evs req) = {k. \<exists>e. map_of evs k = Some e \<and> ollama_request_id e = req}"
  by (auto simp: events_to_remove_def intro: rev_image_eqI)

lemma distinct_events_to_remove:
  "distinct (map fst evs) \<Longrightarrow> distinct (events_to_remove evs req)"
  by (simp add: events_to_remove_def distinct_map_filter)

lemma undo_unfold:
  "events_to_remove (events self) req \<noteq> [] \<Longrightarrow>
   undo_ollama_generation self req =
     (True, self\<lparr>events := fst (fold undo_step (events_to_remove (events self) req)
                                   (events self, head_event_id self)),
                  head_event_id := snd (fold undo_step (events_to_remove (events self) req)
                                          (events self, head_event_id self)),
                  dirty := True\<rparr>)"
  by (simp add: undo_ollama_generation_def Let_def)

lemma has_key_undo_fold:
  "has_key (fst (fold undo_step ks (evs, head))) k \<longleftrightarrow> has_key evs k \<and> k \<notin> set ks"
  using keys_undo_fold [of ks "(evs, head)"] by (auto simp: has_key_iff)

text \<open>
  C5. On a timeline whose \<open>events\<close> is a dict (no key twice),
  \<open>undo_ollama_generation\<close> leaves in \<open>events\<close> exactly the keys of the events whose
  request id differs from the argument (their descendants included), and it returns true
  exactly when some event carries the argument as its request id.
\<close>

theorem undo_removes_tagged:
  assumes "distinct (map fst (events self))"
  shows "(\<forall>k. has_key (events (snd (undo_ollama_generation self req))) k \<longleftrightarrow>
              (\<exists>e. map_of (events self) k = Some e \<and> ollama_request_id e \<noteq> req)) \<and>
         (fst (undo_ollama_generation self req) \<longleftrightarrow>
              (\<exists>k e. map_of (events self) k = Some e \<and> ollama_request_id e = req))"
proof -
  let ?L = "events_to_remove (events self) req"
  have L: "set ?L = {k. \<exists>e. map_of (events self) k = Some e \<and> ollama_request_id e = req}"
    by (rule set_events_to_remove [OF assms])
  have keys: "\<And>k. has_key (events self) k \<longleftrightarrow> (\<exists>e. map_of (events self) k = Some e)"
    by (auto simp: has_key_def)
  show ?thesis
  proof (cases "?L = []")
    case True
    with L have none: "\<And>k e. map_of (events self) k = Some e \<Longrightarrow> ollama_request_id e \<noteq> req"
      by auto
    from True have "undo_ollama_generation self req = (False, self)"
      by (simp add: undo_ollama_generation_def)
    with none show ?thesis by (auto simp: keys)
  next
    case False
    note u = undo_unfold [OF False]
    from False obtain k where "k \<in> set ?L" by (cases ?L) auto
    with L have ex: "\<exists>k e. map_of (events self) k = Some e \<and> ollama_request_id e = req"
      by auto
    from u ex L show ?thesis by (auto simp: keys has_key_undo_fold)
  qed
qed

lemma run4_keys:
  "map fst (events run4) = [''1-text_node-0'', ''2-ollama_generation-0'', ''4-text_node-0'']"
  by (simp add: run_defs)

theorem undo_removes_tagged_witness:
  "distinct (map fst (events run4)) \<and>
   fst (undo_ollama_generation run4 (Some ''g'')) \<and>
   \<not> has_key (events (snd (undo_ollama_generation run4 (Some ''g'')))) ''2-ollama_generation-0'' \<and>
   has_key (events (snd (undo_ollama_generation run4 (Some ''g'')))) ''4-text_node-0''"
proof -
  have d: "distinct (map fst (events run4))" by (simp add: run4_keys)
  note t = undo_removes_tagged [OF d, of "Some ''g''"]
  obtain e where e: "map_of (events run4) ''2-ollama_generation-0'' = Some e"
      "ollama_request_id e = Some ''g''"
    by (simp add: run_defs)
  then have n2: "\<not> (\<exists>e'. map_of (events run4) ''2-ollama_generation-0'' = Some e'
                        \<and> ollama_request_id e' \<noteq> Some ''g'')"
    by simp
  have e4: "\<exists>e. map_of (events run4) ''4-text_node-0'' = Some e
                \<and> ollama_request_id e \<noteq> Some ''g''"
    by (simp add: run_defs)
  from t e have "fst (undo_ollama_generation run4 (Some ''g''))" by blast
  moreover from t n2
  have "\<not> has_key (events (snd (undo_ollama_generation run4 (Some ''g'')))) ''2-ollama_generation-0''"
    by blast
  moreover from t e4
  have "has_key (events (snd (undo_ollama_generation run4 (Some ''g'')))) ''4-text_node-0''"
    by blast
  ultimately show ?thesis using d by simp
qed

lemma head_stable:
  "\<forall>k \<in> set ks. head \<noteq> Some k \<Longrightarrow> snd (fold undo_step ks (evs, head)) = head"
proof (induction ks arbitrary: evs)
  case Nil
  then show ?case by simp
next
  case (Cons k ks)
  have "undo_step k (evs, head) = (fst (undo_step k (evs, head)), head)"
    using Cons.prems by (simp add: undo_step_def Let_def)
  then have "fold undo_step (k # ks) (evs, head)
               = fold undo_step ks (fst (undo_step k (evs, head)), head)"
    by simp
  with Cons show ?case by simp
qed

lemma parent_undo_step:
  "k' \<noteq> k \<Longrightarrow> map_option parent_event_id (map_of (fst (undo_step k st)) k')
                 = map_option parent_event_id (map_of (fst st) k')"
  by (simp add: undo_step_def Let_def map_of_modify_event delete_conv' split: option.split)

lemma parent_undo_fold:
  "k' \<notin> set ks \<Longrightarrow> map_option parent_event_id (map_of (fst (fold undo_step ks st)) k')
                 = map_option parent_event_id (map_of (fst st) k')"
  by (induction ks arbitrary: st) (simp_all add: parent_undo_step)

text \<open>The head after the loop, when the head \<open>h\<close> is one of the ids to remove and its
  parent is not: the loop leaves the head alone until it reaches \<open>h\<close>, moves it to the
  parent of \<open>h\<close> there, and leaves it alone again.\<close>

lemma undo_head_retreat:
  assumes h: "h \<in> set ks" and d: "distinct ks"
    and e: "map_of evs h = Some e"
    and p: "\<forall>p. parent_event_id e = Some p \<longrightarrow> p \<notin> set ks"
  shows "snd (fold undo_step ks (evs, Some h)) = parent_event_id e"
proof -
  from h obtain xs ys where ks: "ks = xs @ h # ys" by (auto dest: split_list)
  with d have hx: "h \<notin> set xs" and hy: "h \<notin> set ys" by auto
  define st1 where "st1 = fold undo_step xs (evs, Some h)"
  have s1: "snd st1 = Some h"
    unfolding st1_def using hx by (intro head_stable) auto
  have "map_option parent_event_id (map_of (fst st1) h)
          = map_option parent_event_id (map_of evs h)"
    unfolding st1_def using parent_undo_fold [OF hx, of "(evs, Some h)"] by simp
  with e obtain e1 where e1: "map_of (fst st1) h = Some e1"
      "parent_event_id e1 = parent_event_id e"
    by auto
  have s2: "snd (undo_step h st1) = parent_event_id e"
    using s1 e1 by (simp add: undo_step_def Let_def)
  have "\<forall>k \<in> set ys. parent_event_id e \<noteq> Some k"
    using p ks by auto
  then have "snd (fold undo_step ys (fst (undo_step h st1), parent_event_id e))
               = parent_event_id e"
    by (rule head_stable)
  with s2 have "snd (fold undo_step ys (undo_step h st1)) = parent_event_id e"
    by (metis prod.collapse)
  then show ?thesis by (simp add: ks st1_def)
qed

lemma run3_undo:
  "undo_ollama_generation run3 (Some ''g'') =
     (True, run1\<lparr>head_event_id := Some ''2-ollama_generation-0''\<rparr>)"
  by (simp add: run_defs undo_ollama_generation_def events_to_remove_def undo_step_def)

text \<open>
  C1, as stated, fails: in \<open>run3\<close> the head is the second of two generated events with
  the request id \<open>g\<close>, the child of the first. Both are removed, the first one first;
  the head moves one step, to the first, and stays there, on an event that is no longer
  in \<open>events\<close>.
\<close>

theorem undo_head_on_removed_event:
  "head_event_id run3 = Some ''3-ollama_generation-0'' \<and>
   ''3-ollama_generation-0'' \<in> set (events_to_remove (events run3) (Some ''g'')) \<and>
   head_event_id (snd (undo_ollama_generation run3 (Some ''g''))) = Some ''2-ollama_generation-0'' \<and>
   \<not> has_key (events (snd (undo_ollama_generation run3 (Some ''g'')))) ''2-ollama_generation-0''"
proof -
  have "head_event_id run3 = Some ''3-ollama_generation-0''"
    by (simp add: run_defs)
  moreover have "''3-ollama_generation-0'' \<in> set (events_to_remove (events run3) (Some ''g''))"
    by (simp add: run_defs events_to_remove_def)
  moreover have "\<not> has_key (events run1) ''2-ollama_generation-0''"
    by (simp add: run_defs)
  ultimately show ?thesis by (simp add: run3_undo)
qed

text \<open>
  C1, amended. On a timeline whose \<open>events\<close> is a dict, when the head is one of the
  removed events and its parent id is an event with another request id (so one that is
  not removed), after \<open>undo_ollama_generation\<close> the head is that parent, one step along
  the parent link, and the parent is still in \<open>events\<close>.
\<close>

theorem undo_head_retreats_to_surviving_parent:
  assumes "distinct (map fst (events self))"
    and "head_event_id self = Some h"
    and "map_of (events self) h = Some e"
    and "ollama_request_id e = req"
    and "parent_event_id e = Some p"
    and "map_of (events self) p = Some pe"
    and "ollama_request_id pe \<noteq> req"
  shows "head_event_id (snd (undo_ollama_generation self req)) = Some p \<and>
         has_key (events (snd (undo_ollama_generation self req))) p"
proof -
  let ?L = "events_to_remove (events self) req"
  have L: "set ?L = {k. \<exists>e. map_of (events self) k = Some e \<and> ollama_request_id e = req}"
    by (rule set_events_to_remove [OF assms(1)])
  have hL: "h \<in> set ?L" using L assms(3,4) by auto
  have pL: "p \<notin> set ?L" using L assms(6,7) by auto
  have dL: "distinct ?L" by (rule distinct_events_to_remove [OF assms(1)])
  from hL have ne: "?L \<noteq> []" by auto
  have "snd (fold undo_step ?L (events self, Some h)) = parent_event_id e"
    using hL dL assms(3) pL assms(5) by (intro undo_head_retreat) auto
  then have head: "head_event_id (snd (undo_ollama_generation self req)) = Some p"
    using assms(2,5) by (simp add: undo_unfold [OF ne])
  have "has_key (events self) p" using assms(6) by (simp add: has_key_def)
  with pL have "has_key (events (snd (undo_ollama_generation self req))) p"
    by (simp add: undo_unfold [OF ne] has_key_undo_fold)
  with head show ?thesis by simp
qed

lemma run2_facts:
  "map fst (events run2) = [''1-text_node-0'', ''2-ollama_generation-0'']"
  "head_event_id run2 = Some ''2-ollama_generation-0''"
  "\<exists>e. map_of (events run2) ''2-ollama_generation-0'' = Some e
        \<and> ollama_request_id e = Some ''g'' \<and> parent_event_id e = Some ''1-text_node-0''"
  "\<exists>pe. map_of (events run2) ''1-text_node-0'' = Some pe \<and> ollama_request_id pe \<noteq> Some ''g''"
  by (simp_all add: run_defs)

theorem undo_head_retreats_to_surviving_parent_witness:
  "head_event_id run2 = Some ''2-ollama_generation-0'' \<and>
   head_event_id (snd (undo_ollama_generation run2 (Some ''g''))) = Some ''1-text_node-0'' \<and>
   has_key (events (snd (undo_ollama_generation run2 (Some ''g'')))) ''1-text_node-0''"
proof -
  have d: "distinct (map fst (events run2))" by (simp add: run2_facts(1))
  from run2_facts(3) obtain e where e: "map_of (events run2) ''2-ollama_generation-0'' = Some e"
      "ollama_request_id e = Some ''g''" "parent_event_id e = Some ''1-text_node-0''"
    by blast
  from run2_facts(4) obtain pe where pe: "map_of (events run2) ''1-text_node-0'' = Some pe"
      "ollama_request_id pe \<noteq> Some ''g''"
    by blast
  from undo_head_retreats_to_surviving_parent [OF d run2_facts(2) e pe] run2_facts(2)
  show ?thesis by simp
qed

section \<open>create_branch_point\<close>

lemma lookup_modify_event:
  "map_of (modify_event k g evs) k' = (if k' = k then map_option g (map_of evs k) else map_of evs k')"
  by (simp add: map_of_modify_event split: option.split)

lemma lookup_add_event:
  "map_of (events (snd (add_event lib now self ty d parg req))) k =
     (let par = (case parg of None \<Rightarrow> head_event_id self | Some p \<Rightarrow> Some p);
          n = new_event_id lib now ty d;
          m1 = (map_of (events self))(n \<mapsto> StoryEvent_init lib now ty d par req)
      in if par = Some k \<and> k \<noteq> []
         then map_option (\<lambda>e. e\<lparr>child_event_ids := child_event_ids e @ [n]\<rparr>) (m1 k)
         else m1 k)"
  by (auto simp: add_event_def Let_def lookup_modify_event update_conv' has_key_def
           split: option.split)

lemma has_key_modify_event: "has_key (modify_event k g evs) k' = has_key evs k'"
  by (simp add: has_key_def lookup_modify_event)


lemma reattach_other:
  assumes "\<And>e x. f (e\<lparr>parent_event_id := x\<rparr>) = f e"
    and "\<And>e y. f (e\<lparr>child_event_ids := y\<rparr>) = f e"
  shows "map_option f (map_of (reattach b cs evs) k) = map_option f (map_of evs k)"
proof (induction cs arbitrary: evs)
  case Nil
  then show ?case by simp
next
  case (Cons c cs)
  show ?case
    by (simp add: Cons.IH lookup_modify_event assms option.map_comp comp_def split: option.split)
qed

lemma reattach_parent:
  "map_option parent_event_id (map_of (reattach b cs evs) k) =
     (if k \<in> set cs then map_option (\<lambda>e. Some b) (map_of evs k)
      else map_option parent_event_id (map_of evs k))"
proof (induction cs arbitrary: evs)
  case Nil
  then show ?case by simp
next
  case (Cons c cs)
  show ?case
    by (auto simp: Cons.IH lookup_modify_event option.map_comp comp_def split: option.split)
qed

lemma reattach_children:
  "map_option child_event_ids (map_of (reattach b cs evs) k) =
     (if k = b then map_option (\<lambda>e. child_event_ids e @ filter (has_key evs) cs) (map_of evs b)
      else map_option child_event_ids (map_of evs k))"
proof (induction cs arbitrary: evs)
  case Nil
  then show ?case by simp
next
  case (Cons c cs)
  have hk: "\<And>e. map_of evs c = Some e \<Longrightarrow>
     has_key (modify_event b (\<lambda>b. b\<lparr>child_event_ids := child_event_ids b @ [c]\<rparr>)
              (modify_event c (\<lambda>c. c\<lparr>parent_event_id := Some b\<rparr>) evs)) = has_key evs"
    by (rule ext) (simp add: has_key_modify_event)
  show ?case
  proof (cases "map_of evs c")
    case None
    then have "\<not> has_key evs c" by (simp add: has_key_def)
    with None show ?thesis by (simp add: Cons.IH)
  next
    case (Some e)
    then have "has_key evs c" by (simp add: has_key_def)
    with Some show ?thesis
      by (auto simp: Cons.IH hk [OF Some] lookup_modify_event option.map_comp comp_def)
  qed
qed

text \<open>
  C4, as stated, fails: in \<open>run5\<close> the root has two children. Given two equal options
  whose \<open>add_event\<close> calls read the same clock value, \<open>create_branch_point\<close> generates
  one id twice: it returns that id twice, the second option event replaces the first, and
  the only option event that is left has no children.
\<close>

theorem same_options_one_option_event:
  "map_option child_event_ids (map_of (events run5) ''1-text_node-0'')
     = Some [''2-ollama_generation-0'', ''3-text_node-0''] \<and>
   fst (create_branch_point test_lib run5 ''1-text_node-0''
          [(''8'', ChoiceSpec ''x'' None), (''8'', ChoiceSpec ''x'' None)])
     = (True, [''8-branch_option-0'', ''8-branch_option-0'']) \<and>
   map_option child_event_ids
     (map_of (events (snd (create_branch_point test_lib run5 ''1-text_node-0''
                             [(''8'', ChoiceSpec ''x'' None), (''8'', ChoiceSpec ''x'' None)])))
        ''8-branch_option-0'') = Some []"
proof -
  have "map_option child_event_ids (map_of (events run5) ''1-text_node-0'')
          = Some [''2-ollama_generation-0'', ''3-text_node-0'']"
    by (simp add: run_defs)
  moreover
  have "fst (create_branch_point test_lib run5 ''1-text_node-0''
               [(''8'', ChoiceSpec ''x'' None), (''8'', ChoiceSpec ''x'' None)])
          = (True, [''8-branch_option-0'', ''8-branch_option-0''])"
    by code_simp
  moreover
  have "map_option child_event_ids
          (map_of (events (snd (create_branch_point test_lib run5 ''1-text_node-0''
                                  [(''8'', ChoiceSpec ''x'' None), (''8'', ChoiceSpec ''x'' None)])))
             ''8-branch_option-0'') = Some []"
    by code_simp
  ultimately show ?thesis by blast
qed

text \<open>
  C4, amended. Let \<open>a\<close> be an event of the timeline whose children are \<open>[c1, c2]\<close>, both
  events of the timeline, and let the two ids \<open>b1\<close>, \<open>b2\<close> that \<open>create_branch_point\<close>
  generates for two options be new to the timeline and different. Then the call returns
  true with \<open>[b1, b2]\<close>; \<open>a\<close> is a branch point whose branch choices are the two options
  with targets \<open>b1\<close> and \<open>b2\<close>; the children of \<open>b1\<close> are \<open>[c1, c2]\<close>, each with parent
  \<open>b1\<close>; \<open>b2\<close> has no children.
\<close>

theorem create_branch_point_reattaches:
  assumes a: "map_of (events self) a = Some ev" and ch: "child_event_ids ev = [c1, c2]"
    and c1: "has_key (events self) c1" and c2: "has_key (events self) c2"
    and b1: "b1 = new_event_id lib now1 ''branch_option'' (branch_payload o1)"
    and b2: "b2 = new_event_id lib now2 ''branch_option'' (branch_payload o2)"
    and f1: "\<not> has_key (events self) b1" and f2: "\<not> has_key (events self) b2"
    and ne: "b1 \<noteq> b2"
  shows "fst (create_branch_point lib self a [(now1, o1), (now2, o2)]) = (True, [b1, b2]) \<and>
         (\<exists>ea. map_of (events (snd (create_branch_point lib self a [(now1, o1), (now2, o2)]))) a
                  = Some ea
               \<and> is_branch_point ea
               \<and> branch_choices ea = [BranchChoice (spec_text o1) b1, BranchChoice (spec_text o2) b2]) \<and>
         (\<exists>e1. map_of (events (snd (create_branch_point lib self a [(now1, o1), (now2, o2)]))) b1
                  = Some e1
               \<and> child_event_ids e1 = [c1, c2]) \<and>
         (\<exists>x1. map_of (events (snd (create_branch_point lib self a [(now1, o1), (now2, o2)]))) c1
                  = Some x1
               \<and> parent_event_id x1 = Some b1) \<and>
         (\<exists>x2. map_of (events (snd (create_branch_point lib self a [(now1, o1), (now2, o2)]))) c2
                  = Some x2
               \<and> parent_event_id x2 = Some b1) \<and>
         (\<exists>e2. map_of (events (snd (create_branch_point lib self a [(now1, o1), (now2, o2)]))) b2
                  = Some e2
               \<and> child_event_ids e2 = [])"
proof -
  have neq: "a \<noteq> b1" "a \<noteq> b2" "c1 \<noteq> b1" "c2 \<noteq> b1" "c1 \<noteq> b2" "c2 \<noteq> b2"
    using a c1 c2 f1 f2 by (auto simp: has_key_def)
  define evs0 where "evs0 = modify_event a
      (\<lambda>e. e\<lparr>is_branch_point := True, child_event_ids := [], branch_choices := []\<rparr>) (events self)"
  define s1 where "s1 = snd (add_event lib now1 (self\<lparr>events := evs0\<rparr>) ''branch_option''
                               (branch_payload o1) (Some a) None)"
  define evs2 where "evs2 = reattach b1 [c1, c2] (events s1)"
  define evs3 where "evs3 = modify_event a
      (\<lambda>e. e\<lparr>branch_choices := branch_choices e @ [BranchChoice (spec_text o1) b1]\<rparr>) evs2"
  define s2 where "s2 = snd (add_event lib now2 (s1\<lparr>events := evs3\<rparr>) ''branch_option''
                               (branch_payload o2) (Some a) None)"
  define evs5 where "evs5 = modify_event a
      (\<lambda>e. e\<lparr>branch_choices := branch_choices e @ [BranchChoice (spec_text o2) b2]\<rparr>) (events s2)"
  have res: "create_branch_point lib self a [(now1, o1), (now2, o2)]
               = ((True, [b1, b2]), s2\<lparr>events := evs5, dirty := True\<rparr>)"
    using a ch neq b1 b2
    by (simp add: create_branch_point_def split_beta Let_def add_event_fst
          evs0_def s1_def evs2_def evs3_def s2_def evs5_def)
  have k0: "\<And>k. has_key evs0 k = has_key (events self) k"
    by (simp add: evs0_def has_key_modify_event)
  have k1: "\<And>k. has_key (events s1) k = (k = b1 \<or> has_key (events self) k)"
    by (auto simp: s1_def has_key_def lookup_add_event Let_def b1 evs0_def lookup_modify_event)
  (* the first option *)
  have "map_option child_event_ids (map_of (events s1) b1) = Some []"
    using neq by (simp add: s1_def lookup_add_event Let_def b1 [symmetric] StoryEvent_init_def)
  then have "map_option child_event_ids (map_of evs2 b1) = Some [c1, c2]"
    using c1 c2 by (simp add: evs2_def reattach_children k1 option.map_comp comp_def del: reattach.simps)
  then have "map_option child_event_ids (map_of evs3 b1) = Some [c1, c2]"
    using neq by (simp add: evs3_def lookup_modify_event)
  then have "map_option child_event_ids (map_of (events s2) b1) = Some [c1, c2]"
    using neq ne by (simp add: s2_def lookup_add_event Let_def b2 [symmetric])
  then have B1: "map_option child_event_ids (map_of evs5 b1) = Some [c1, c2]"
    using neq by (simp add: evs5_def lookup_modify_event)
  (* the second option *)
  have "map_option child_event_ids (map_of (events s2) b2) = Some []"
    using neq by (simp add: s2_def lookup_add_event Let_def b2 [symmetric] StoryEvent_init_def)
  then have B2: "map_option child_event_ids (map_of evs5 b2) = Some []"
    using neq by (simp add: evs5_def lookup_modify_event)
  (* the former children *)
  have P: "map_option parent_event_id (map_of evs5 c) = Some (Some b1)"
    if c: "has_key (events self) c" "c \<in> {c1, c2}" for c
  proof -
    from c f2 have cb: "c \<noteq> b2" by auto
    from c have "has_key (events s1) c" by (simp add: k1)
    then have "map_option parent_event_id (map_of evs2 c) = Some (Some b1)"
      using c(2) by (auto simp: evs2_def reattach_parent has_key_def simp del: reattach.simps)
    then have "map_option parent_event_id (map_of evs3 c) = Some (Some b1)"
      by (auto simp: evs3_def lookup_modify_event)
    then have "map_option parent_event_id (map_of (events s2) c) = Some (Some b1)"
      using cb by (auto simp: s2_def lookup_add_event Let_def b2 [symmetric])
    then show ?thesis
      by (auto simp: evs5_def lookup_modify_event)
  qed
  (* the branch point *)
  from a have "\<exists>e. map_of evs0 a = Some e \<and> is_branch_point e \<and> branch_choices e = []"
    by (simp add: evs0_def lookup_modify_event)
  then have A1: "\<exists>e. map_of (events s1) a = Some e \<and> is_branch_point e \<and> branch_choices e = []"
    using neq by (auto simp: s1_def lookup_add_event Let_def b1 [symmetric])
  have "map_option is_branch_point (map_of evs2 a) = map_option is_branch_point (map_of (events s1) a)"
       "map_option branch_choices (map_of evs2 a) = map_option branch_choices (map_of (events s1) a)"
    unfolding evs2_def by (rule reattach_other; simp)+
  with A1 have "\<exists>e. map_of evs2 a = Some e \<and> is_branch_point e \<and> branch_choices e = []"
    by auto
  then have "\<exists>e. map_of evs3 a = Some e \<and> is_branch_point e
                 \<and> branch_choices e = [BranchChoice (spec_text o1) b1]"
    by (auto simp: evs3_def lookup_modify_event)
  then have "\<exists>e. map_of (events s2) a = Some e \<and> is_branch_point e
                 \<and> branch_choices e = [BranchChoice (spec_text o1) b1]"
    using neq by (auto simp: s2_def lookup_add_event Let_def b2 [symmetric])
  then have A: "\<exists>e. map_of evs5 a = Some e \<and> is_branch_point e
                 \<and> branch_choices e = [BranchChoice (spec_text o1) b1, BranchChoice (spec_text o2) b2]"
    by (auto simp: evs5_def lookup_modify_event)
  from P [OF c1] P [OF c2] B1 B2 A show ?thesis
    by (auto simp: res)
qed

lemma run5_facts:
  "\<exists>ev. map_of (events run5) ''1-text_node-0'' = Some ev
         \<and> child_event_ids ev = [''2-ollama_generation-0'', ''3-text_node-0'']"
  "has_key (events run5) ''2-ollama_generation-0''"
  "has_key (events run5) ''3-text_node-0''"
  "\<not> has_key (events run5) ''8-branch_option-0''"
  "\<not> has_key (events run5) ''9-branch_option-0''"
  by (simp_all add: run_defs)

theorem create_branch_point_reattaches_witness:
  "fst (create_branch_point test_lib run5 ''1-text_node-0''
          [(''8'', ChoiceSpec ''x'' None), (''9'', ChoiceSpec ''y'' None)])
     = (True, [''8-branch_option-0'', ''9-branch_option-0'']) \<and>
   (\<exists>e1. map_of (events (snd (create_branch_point test_lib run5 ''1-text_node-0''
                                 [(''8'', ChoiceSpec ''x'' None), (''9'', ChoiceSpec ''y'' None)])))
             ''8-branch_option-0'' = Some e1
          \<and> child_event_ids e1 = [''2-ollama_generation-0'', ''3-text_node-0''])"
proof -
  from run5_facts(1) obtain ev where ev: "map_of (events run5) ''1-text_node-0'' = Some ev"
      "child_event_ids ev = [''2-ollama_generation-0'', ''3-text_node-0'']"
    by blast
  have b1: "''8-branch_option-0''
              = new_event_id test_lib ''8'' ''branch_option'' (branch_payload (ChoiceSpec ''x'' None))"
    and b2: "''9-branch_option-0''
              = new_event_id test_lib ''9'' ''branch_option'' (branch_payload (ChoiceSpec ''y'' None))"
    by (simp_all add: new_event_id_def test_lib_def)
  have ne: "''8-branch_option-0'' \<noteq> ''9-branch_option-0''" by simp
  from create_branch_point_reattaches
         [OF ev run5_facts(2) run5_facts(3) b1 b2 run5_facts(4) run5_facts(5) ne]
  show ?thesis by blast
qed

section \<open>The links between parents and children\<close>






























text \<open>
  The two conditions of \<open>reachable_fresh\<close> besides the absence of
  \<open>undo_ollama_generation\<close> are needed as well. With no option,
  \<open>create_branch_point\<close> clears the child list of the event and attaches its children
  nowhere. An \<open>add_event\<close> that generates the id of the root again replaces the root by
  an event without children.
\<close>

lemma no_option_breaks_links:
  "\<not> bidirectional (snd (create_branch_point test_lib run2 ''1-text_node-0'' []))"
  by (simp add: create_branch_point_def run_defs bidirectional_def linked_def)

lemma repeated_id_breaks_links:
  "\<not> bidirectional (snd (add_event test_lib ''1'' run2 ''text_node'' (JStr ''a'') None None))"
  by (simp add: run_defs bidirectional_def linked_def)


end
